theory Spec2Isabelle
  imports Complex_Main "HOL-Library.AList" "HOL-Library.Char_ord" "HOL-Library.List_Lexorder"
begin

section \<open>Python values used by generate\_dataset.py\<close>

text \<open>
  A ratio is a Python float.  The finite floats are rationals, so a ratio is a \<open>rat\<close>;
  the product \<open>triplets_len * split_ratio\<close> is taken exactly (the rounding of the float
  product is outside the model), and \<open>int(...)\<close> truncates towards zero.
\<close>

type_synonym ratio = rat

definition py_int :: "rat \<Rightarrow> int" where
  "py_int x = (if 0 \<le> x then \<lfloor>x\<rfloor> else \<lceil>x\<rceil>)"

text \<open>
  Slicing \<open>xs[lo:hi]\<close> and \<open>xs[lo:]\<close> with integer bounds: a negative bound counts from
  the end, and every bound is clamped into \<open>0..len(xs)\<close>.
\<close>

definition slice_index :: "nat \<Rightarrow> int \<Rightarrow> nat" where
  "slice_index n i = (if i < 0 then nat (max (i + int n) 0) else min (nat i) n)"

definition py_slice :: "'a list \<Rightarrow> int \<Rightarrow> int \<Rightarrow> 'a list" where
  "py_slice xs lo hi =
     (let a = slice_index (length xs) lo; b = slice_index (length xs) hi
      in if a < b then take (b - a) (drop a xs) else [])"

definition py_slice_from :: "'a list \<Rightarrow> int \<Rightarrow> 'a list" where
  "py_slice_from xs lo = drop (slice_index (length xs) lo) xs"

text \<open>
  A dict keeps its keys in insertion order, so it is an association list; storing under a
  key that is present keeps the key's position (\<open>AList.update\<close>).
\<close>

type_synonym ('k, 'v) dict = "('k \<times> 'v) list"

definition dict_init :: "'k list \<Rightarrow> ('k, 'v list) dict" where
  "dict_init splits = foldl (\<lambda>d s. AList.update s [] d) [] splits"

text \<open>\<open>dataset[split].append(x)\<close>; the key is always one of the dict's own keys.\<close>

definition dict_append :: "('k, 'v list) dict \<Rightarrow> 'k \<Rightarrow> 'v \<Rightarrow> ('k, 'v list) dict" where
  "dict_append d k x =
     (case map_of d k of None \<Rightarrow> d | Some vs \<Rightarrow> AList.update k (vs @ [x]) d)"

section \<open>The dataset partitioner\<close>

definition SPLITS :: "string list" where
  "SPLITS = [''train'', ''val'', ''test'']"

text \<open>
  The body of the loop of \<open>split_dataset\<close>, over \<open>enumerate(zip(splits, split_ratios))\<close>;
  the state is the dict and the cursor \<open>start_idx\<close>.
\<close>

fun split_loop ::
  "'a list \<Rightarrow> nat \<Rightarrow> (nat \<times> string \<times> ratio) list \<Rightarrow>
   (string, 'a list) dict \<times> int \<Rightarrow> (string, 'a list) dict \<times> int" where
  "split_loop img_triplets n_splits [] st = st"
| "split_loop img_triplets n_splits ((split_idx, split, split_ratio) # rest) (dataset, start_idx) =
     (let triplet_indices = [0..<length img_triplets];
          triplets_len = length triplet_indices;
          split_len = py_int (of_nat triplets_len * split_ratio);
          split_triplet_indices =
            (if int split_idx = int n_splits - 1
             then py_slice_from triplet_indices start_idx
             else py_slice triplet_indices start_idx (start_idx + split_len));
          dataset' =
            foldl (\<lambda>d triplet_idx. dict_append d split (img_triplets ! triplet_idx))
              dataset split_triplet_indices
      in split_loop img_triplets n_splits rest (dataset', start_idx + split_len))"

definition split_dataset ::
  "'a list \<Rightarrow> string list \<Rightarrow> ratio list \<Rightarrow> (string, 'a list) dict" where
  "split_dataset img_triplets splits split_ratios =
     fst (split_loop img_triplets (length splits)
            (enumerate 0 (zip splits split_ratios)) (dict_init splits, 0))"

text \<open>
  The same loop written as the list of index slices it hands out, one per ratio: the
  closed form the proofs below work with (related to \<open>split_dataset\<close> by
  \<open>split_dataset_closed\<close>).
\<close>

fun split_slices :: "nat \<Rightarrow> nat \<Rightarrow> nat \<Rightarrow> int \<Rightarrow> ratio list \<Rightarrow> nat list list" where
  "split_slices N n k start [] = []"
| "split_slices N n k start (r # rs) =
     (if int k = int n - 1 then py_slice_from [0..<N] start
      else py_slice [0..<N] start (start + py_int (of_nat N * r)))
     # split_slices N n (Suc k) (start + py_int (of_nat N * r)) rs"



section \<open>Paths and file names\<close>

text \<open>
  \<open>os.path\<close> on POSIX.  \<open>rfind\<close> is \<open>str.rfind\<close> for a single character: the index of
  its last occurrence, or \<open>-1\<close>.
\<close>

type_synonym path = string

definition rfind :: "char \<Rightarrow> string \<Rightarrow> int" where
  "rfind c p =
     (if c \<in> set p then int (length p) - 1 - int (length (takeWhile (\<lambda>x. x \<noteq> c) (rev p)))
      else - 1)"

definition rstrip_sep :: "path \<Rightarrow> path" where
  "rstrip_sep p = rev (dropWhile (\<lambda>c. c = CHR ''/'') (rev p))"

text \<open>\<open>os.path.join\<close>: an absolute component discards what came before it.\<close>

definition os_path_join2 :: "path \<Rightarrow> path \<Rightarrow> path" where
  "os_path_join2 a b =
     (if b \<noteq> [] \<and> hd b = CHR ''/'' then b
      else if a = [] \<or> last a = CHR ''/'' then a @ b
      else a @ ''/'' @ b)"

definition os_path_join :: "path \<Rightarrow> path list \<Rightarrow> path" where
  "os_path_join a ps = foldl os_path_join2 a ps"

text \<open>\<open>os.path.split\<close>: the tail is everything after the last slash.\<close>

definition os_path_split :: "path \<Rightarrow> path \<times> path" where
  "os_path_split p =
     (let i = nat (rfind (CHR ''/'') p + 1);
          head = take i p;
          tail = drop i p
      in (if head \<noteq> [] \<and> head \<noteq> replicate (length head) (CHR ''/'')
          then rstrip_sep head else head, tail))"

definition os_path_basename :: "path \<Rightarrow> path" where
  "os_path_basename p = snd (os_path_split p)"

text \<open>
  \<open>os.path.splitext\<close>: the extension starts at the last dot of the last component, unless
  only dots precede it there (the loop that skips leading dots).
\<close>

fun has_non_dot :: "string \<Rightarrow> bool" where
  "has_non_dot [] = False"
| "has_non_dot (c # cs) = (if c \<noteq> CHR ''.'' then True else has_non_dot cs)"

definition os_path_splitext :: "path \<Rightarrow> path \<times> path" where
  "os_path_splitext p =
     (let sepIndex = rfind (CHR ''/'') p;
          dotIndex = rfind (CHR ''.'') p
      in if dotIndex > sepIndex \<and> has_non_dot (py_slice p (sepIndex + 1) dotIndex)
         then (take (nat dotIndex) p, drop (nat dotIndex) p)
         else (p, []))"

text \<open>\<open>sep.join(xs)\<close> on strings.\<close>

fun str_join :: "string \<Rightarrow> string list \<Rightarrow> string" where
  "str_join s [] = []"
| "str_join s [x] = x"
| "str_join s (x # y # ys) = x @ s @ str_join s (y # ys)"

section \<open>Pair discovery\<close>

text \<open>
  The directories are read through \<open>listdir\<close>, which gives the names in a directory in
  whatever order the operating system returns them (and no name for a directory that does
  not exist).  \<open>glob_png\<close> is \<open>glob.glob\<close> for a pathname whose last component is the
  pattern \<open>*.png\<close> and whose directory part holds no wildcard: the names of the directory
  that end in \<open>.png\<close>, except those starting with a dot, which \<open>glob\<close> only matches with a
  pattern that starts with a dot itself.
\<close>

definition ishidden :: "string \<Rightarrow> bool" where
  "ishidden n = (n \<noteq> [] \<and> hd n = CHR ''.'')"

definition fnmatch_png :: "string \<Rightarrow> bool" where
  "fnmatch_png n = (4 \<le> length n \<and> drop (length n - 4) n = ''.png'')"

definition glob_png :: "(path \<Rightarrow> string list) \<Rightarrow> path \<Rightarrow> path list" where
  "glob_png listdir pathname =
     (let dirname = fst (os_path_split pathname)
      in map (\<lambda>n. os_path_join dirname [n])
           (filter (\<lambda>n. \<not> ishidden n \<and> fnmatch_png n) (listdir dirname)))"

definition search_images :: "(path \<Rightarrow> string list) \<Rightarrow> path \<Rightarrow> string list" where
  "search_images listdir imgs_dir =
     map os_path_basename (glob_png listdir (os_path_join imgs_dir [''*.png'']))"

type_synonym triplet = "string \<times> path \<times> path \<times> string"

definition search_image_triplets :: "(path \<Rightarrow> string list) \<Rightarrow> path \<Rightarrow> triplet list" where
  "search_image_triplets listdir imgs_root =
     (let collection_id = snd (os_path_split imgs_root);
          clean_dir = os_path_join imgs_root [''clean''];
          noisy_dir = os_path_join imgs_root [''noisy''];
          img_clean_names = search_images listdir clean_dir;
          img_noisy_names = search_images listdir noisy_dir;
          img_names = sorted_list_of_set (set img_clean_names \<inter> set img_noisy_names)
      in map (\<lambda>n. (collection_id, clean_dir, noisy_dir, n)) img_names)"

section \<open>Annotation generation\<close>

text \<open>
  An image is a numpy array: its shape and its flat buffer.  The files of the output tree
  are kept decoded.  Directories are not modelled: \<open>mkdir_p\<close> makes every later write into
  the directory succeed, so a write is total.
\<close>

datatype image = Image (height: nat) (width: nat) (channels: nat) (pixels: "nat list")

type_synonym contour = "(int \<times> int) list"

datatype label_dict =
  LabelDict (imgHeight: nat) (imgWidth: nat) (objects: "(string \<times> contour) list")

datatype content = ImageFile image | JsonFile label_dict | TextFile string

type_synonym fs = "path \<rightharpoonup> content"

datatype error = DecodeError path

definition LABEL_NAME :: string where
  "LABEL_NAME = ''defect''"

definition LABEL_ID :: nat where
  "LABEL_ID = 1"

definition zeros_like :: "image \<Rightarrow> image" where
  "zeros_like img =
     Image (height img) (width img) (channels img) (replicate (length (pixels img)) 0)"

text \<open>\<open>cv2.imread\<close> returns \<open>None\<close> for a file that is missing or is not an image.\<close>

definition imread :: "fs \<Rightarrow> path \<Rightarrow> image option" where
  "imread files p = (case files p of Some (ImageFile img) \<Rightarrow> Some img | _ \<Rightarrow> None)"

definition imwrite :: "path \<Rightarrow> image \<Rightarrow> fs \<Rightarrow> fs" where
  "imwrite p img files = files(p \<mapsto> ImageFile img)"

definition copyfile :: "path \<Rightarrow> path \<Rightarrow> fs \<Rightarrow> fs" where
  "copyfile src dst files = files(dst := files src)"

text \<open>
  Modelled from the spec: \<open>save_json\<close> and \<open>save_text\<close> of \<open>defects_segmentation.io\<close>
  are not among the sources; the specification has them write the polygon document and the
  manifest text to the given path.
\<close>

definition save_json :: "path \<Rightarrow> label_dict \<Rightarrow> fs \<Rightarrow> fs" where
  "save_json p doc files = files(p \<mapsto> JsonFile doc)"

definition save_text :: "path \<Rightarrow> string \<Rightarrow> fs \<Rightarrow> fs" where
  "save_text p text files = files(p \<mapsto> TextFile text)"

text \<open>
  \<open>cv2.drawContours\<close> with contour index \<open>-1\<close> and thickness \<open>-1\<close>: every contour is
  filled with the colour.  The rasteriser itself belongs to OpenCV and is a parameter; with no
  contour there is nothing to draw and the image comes back as it is.
\<close>

type_synonym rasteriser = "image \<Rightarrow> contour list \<Rightarrow> nat \<times> nat \<times> nat \<Rightarrow> image"

definition drawContours :: "rasteriser \<Rightarrow> image \<Rightarrow> contour list \<Rightarrow> nat \<times> nat \<times> nat \<Rightarrow> image" where
  "drawContours rasterise img contours colour =
     (if contours = [] then img else rasterise img contours colour)"

text \<open>The names \<open>gen_defects\<close> derives for one pair.\<close>

definition img_id :: "string \<Rightarrow> string \<Rightarrow> string" where
  "img_id collection_id img_name = collection_id @ ''_'' @ fst (os_path_splitext img_name)"

definition raw_img_path :: "path \<Rightarrow> string \<Rightarrow> string \<Rightarrow> path" where
  "raw_img_path output_imgs_dir collection_id img_name =
     os_path_join output_imgs_dir [img_id collection_id img_name @ ''_leftImg8bit.png'']"

definition label_dict_path :: "path \<Rightarrow> string \<Rightarrow> string \<Rightarrow> path" where
  "label_dict_path output_labels_dir collection_id img_name =
     os_path_join output_labels_dir [img_id collection_id img_name @ ''_polygons.json'']"

definition label_img_path :: "path \<Rightarrow> string \<Rightarrow> string \<Rightarrow> path" where
  "label_img_path output_labels_dir collection_id img_name =
     os_path_join output_labels_dir [img_id collection_id img_name @ ''_labelIds.png'']"

text \<open>
  One turn of the loop of \<open>gen_defects\<close>.  \<open>find_defects\<close> is the detector, a collaborator
  outside the sources; an image that does not decode ends the run.  Failures of the file
  system while writing (no permission, a full disk, a copy onto the file itself) are outside
  the model.  A failed run reports the error only; what it had written before is not kept in
  the result.
\<close>

definition gen_defect ::
  "(image \<Rightarrow> image \<Rightarrow> contour list) \<Rightarrow> rasteriser \<Rightarrow> path \<Rightarrow> path \<Rightarrow> path \<Rightarrow>
   triplet \<Rightarrow> (path \<times> path) list \<times> fs \<Rightarrow> error + (path \<times> path) list \<times> fs" where
  "gen_defect find_defects rasterise output_root output_imgs_dir output_labels_dir t st =
     (case t of (collection_id, clean_dir, noisy_dir, img_name) \<Rightarrow>
      case st of (path_pairs, files) \<Rightarrow>
        let img_clean_path = os_path_join clean_dir [img_name];
            img_noisy_path = os_path_join noisy_dir [img_name];
            raw_path = raw_img_path output_imgs_dir collection_id img_name;
            dict_path = label_dict_path output_labels_dir collection_id img_name;
            mask_path = label_img_path output_labels_dir collection_id img_name
        in case imread files img_clean_path of
             None \<Rightarrow> Inl (DecodeError img_clean_path)
           | Some img_clean \<Rightarrow>
        case imread files img_noisy_path of
             None \<Rightarrow> Inl (DecodeError img_noisy_path)
           | Some img_noisy \<Rightarrow>
        let contours = find_defects img_clean img_noisy;
            files1 = copyfile img_noisy_path (os_path_join output_root [raw_path]) files;
            doc = LabelDict (height img_clean) (width img_clean)
                    (map (\<lambda>c. (LABEL_NAME, c)) contours);
            files2 = save_json (os_path_join output_root [dict_path]) doc files1;
            label_img = drawContours rasterise (zeros_like img_noisy) contours
                          (LABEL_ID, LABEL_ID, LABEL_ID);
            files3 = imwrite (os_path_join output_root [mask_path]) label_img files2
        in Inr (path_pairs @ [(raw_path, mask_path)], files3))"

fun gen_defects_loop ::
  "(image \<Rightarrow> image \<Rightarrow> contour list) \<Rightarrow> rasteriser \<Rightarrow> path \<Rightarrow> path \<Rightarrow> path \<Rightarrow>
   triplet list \<Rightarrow> (path \<times> path) list \<times> fs \<Rightarrow> error + (path \<times> path) list \<times> fs" where
  "gen_defects_loop find_defects rasterise output_root output_imgs_dir output_labels_dir [] st =
     Inr st"
| "gen_defects_loop find_defects rasterise output_root output_imgs_dir output_labels_dir
     (t # ts) st =
     (case gen_defect find_defects rasterise output_root output_imgs_dir output_labels_dir t st of
        Inl e \<Rightarrow> Inl e
      | Inr st' \<Rightarrow>
          gen_defects_loop find_defects rasterise output_root output_imgs_dir output_labels_dir
            ts st')"

definition gen_defects ::
  "(image \<Rightarrow> image \<Rightarrow> contour list) \<Rightarrow> rasteriser \<Rightarrow> triplet list \<Rightarrow> path \<Rightarrow> path \<Rightarrow> path \<Rightarrow>
   fs \<Rightarrow> error + (path \<times> path) list \<times> fs" where
  "gen_defects find_defects rasterise img_triplets output_root output_imgs_dir output_labels_dir
     files =
     gen_defects_loop find_defects rasterise output_root output_imgs_dir output_labels_dir
       img_triplets ([], files)"

section \<open>Manifests and the whole run\<close>

definition lst_line :: "path \<times> path \<Rightarrow> string" where
  "lst_line pp = fst pp @ [CHR 0x09] @ snd pp"

definition gen_lst :: "(path \<times> path) list \<Rightarrow> path \<Rightarrow> string \<Rightarrow> fs \<Rightarrow> fs" where
  "gen_lst path_pairs output_dir split files =
     (let output_path = os_path_join output_dir [split @ ''.lst''];
          text = str_join [CHR 0x0A] (map lst_line path_pairs)
      in save_text output_path text files)"



text \<open>
  The arguments \<open>parse_args\<close> returns (\<open>outdir\<close> is \<open>args.output\<close>).  \<open>random.seed\<close> followed by \<open>random.shuffle\<close> is a
  function of the seed and the list, the parameter \<open>shuffle\<close>.
\<close>

record args =
  imgs_dirs :: "path list"
  val :: ratio
  test :: ratio
  limit :: "int option"
  seed :: int
  outdir :: path




section \<open>Reading a manifest back\<close>

text \<open>
  The reader the specification has in mind for a manifest: the text is cut at the newlines
  (an empty file has no line) and each line at its first tab.
\<close>

fun split_on :: "char \<Rightarrow> string \<Rightarrow> string list" where
  "split_on c [] = [[]]"
| "split_on c (x # xs) =
     (if x = c then [] # split_on c xs
      else (case split_on c xs of [] \<Rightarrow> [[x]] | w # ws \<Rightarrow> (x # w) # ws))"

definition manifest_lines :: "string \<Rightarrow> string list" where
  "manifest_lines text = (if text = [] then [] else split_on (CHR 0x0A) text)"

definition parse_lst_line :: "string \<Rightarrow> path \<times> path" where
  "parse_lst_line l =
     (takeWhile (\<lambda>c. c \<noteq> CHR 0x09) l, drop 1 (dropWhile (\<lambda>c. c \<noteq> CHR 0x09) l))"

section \<open>Configurations the specification calls invalid, and two small worlds\<close>





text \<open>
  Two pairs of two collections, \<open>b_c.png\<close> of \<open>a\<close> and \<open>c.png\<close> of \<open>a_b\<close>, with images
  of different sizes.
\<close>

definition clash_first :: triplet where
  "clash_first = (''a'', ''a/clean'', ''a/noisy'', ''b_c.png'')"

definition clash_second :: triplet where
  "clash_second = (''a_b'', ''a_b/clean'', ''a_b/noisy'', ''c.png'')"

definition clash_files :: fs where
  "clash_files =
     [''a/clean/b_c.png'' \<mapsto> ImageFile (Image 1 1 3 [9, 9, 9]),
      ''a/noisy/b_c.png'' \<mapsto> ImageFile (Image 1 1 3 [1, 1, 1]),
      ''a_b/clean/c.png'' \<mapsto> ImageFile (Image 2 1 3 [8, 8, 8, 8, 8, 8]),
      ''a_b/noisy/c.png'' \<mapsto> ImageFile (Image 2 1 3 [2, 2, 2, 2, 2, 2])]"




text \<open>A file name with a newline in it, and the two images of that name under the root \<open>r\<close>.\<close>

definition newline_name :: string where
  "newline_name = ''a'' @ [CHR 0x0A] @ ''b.png''"

definition newline_files :: fs where
  "newline_files =
     [''r/clean'' @ ''/'' @ newline_name \<mapsto> ImageFile (Image 1 1 3 [7, 7, 7]),
      ''r/noisy'' @ ''/'' @ newline_name \<mapsto> ImageFile (Image 1 1 3 [5, 5, 5])]"



section \<open>Dictionary and slice lemmas\<close>

lemma update_fresh: "k \<notin> fst ` set d \<Longrightarrow> AList.update k v d = d @ [(k, v)]"
  by (induction d) auto

lemma update_mid:
  "s \<notin> fst ` set d1 \<Longrightarrow> AList.update s v (d1 @ (s, w) # d2) = d1 @ (s, v) # d2"
  by (induction d1) auto

lemma map_of_mid: "s \<notin> fst ` set d1 \<Longrightarrow> map_of (d1 @ (s, w) # d2) s = Some w"
  by (induction d1) auto

lemma foldl_dict_append:
  "map_of d k = Some vs \<Longrightarrow>
   foldl (\<lambda>d i. dict_append d k (f i)) d js = AList.update k (vs @ map f js) d"
proof (induction js arbitrary: d vs)
  case Nil
  then show ?case by (simp add: AList.update_triv)
next
  case (Cons j js)
  have "map_of (dict_append d k (f j)) k = Some (vs @ [f j])"
    using Cons.prems by (simp add: dict_append_def AList.update_conv')
  from Cons.IH[OF this] show ?case
    using Cons.prems by (simp add: dict_append_def)
qed

lemma foldl_update_fresh:
  "distinct (map fst d @ ks) \<Longrightarrow>
   foldl (\<lambda>d s. AList.update s [] d) d ks = d @ map (\<lambda>s. (s, [])) ks"
proof (induction ks arbitrary: d)
  case Nil
  then show ?case by simp
next
  case (Cons k ks)
  have fresh: "k \<notin> fst ` set d" using Cons.prems by auto
  have "distinct (map fst (d @ [(k, [])]) @ ks)" using Cons.prems by auto
  from Cons.IH[OF this] show ?case by (simp add: update_fresh[OF fresh])
qed

lemma dict_init_distinct: "distinct splits \<Longrightarrow> dict_init splits = map (\<lambda>s. (s, [])) splits"
  using foldl_update_fresh[of "[]" splits] by (simp add: dict_init_def)

lemma split_loop_closed:
  "distinct (pre @ ss) \<Longrightarrow> length vs0 = length pre \<Longrightarrow> length rs = length ss \<Longrightarrow>
   fst (split_loop pool n (enumerate k (zip ss rs))
          (zip pre vs0 @ map (\<lambda>s. (s, [])) ss, start)) =
   zip pre vs0 @ zip ss (map (map (nth pool)) (split_slices (length pool) n k start rs))"
proof (induction ss arbitrary: pre vs0 rs k start)
  case Nil
  then show ?case by simp
next
  case (Cons s ss)
  obtain r rs' where rs: "rs = r # rs'" using Cons.prems(3) by (cases rs) auto
  define len where "len = py_int (of_nat (length pool) * r)"
  define sl where "sl = (if int k = int n - 1 then py_slice_from [0..<length pool] start
      else py_slice [0..<length pool] start (start + len))"
  define v where "v = map (nth pool) sl"
  have notin: "s \<notin> fst ` set (zip pre vs0)"
    using Cons.prems(1) by (auto dest: set_zip_leftD)
  have m: "map_of (zip pre vs0 @ (s, []) # map (\<lambda>s. (s, [])) ss) s = Some []"
    by (rule map_of_mid[OF notin])
  have fold: "foldl (\<lambda>d i. dict_append d s (pool ! i))
        (zip pre vs0 @ (s, []) # map (\<lambda>s. (s, [])) ss) sl =
      zip pre vs0 @ (s, v) # map (\<lambda>s. (s, [])) ss"
    using foldl_dict_append[OF m, where f = "nth pool" and js = sl]
    by (simp add: update_mid[OF notin] v_def)
  have step: "split_loop pool n (enumerate k (zip (s # ss) rs))
        (zip pre vs0 @ map (\<lambda>s. (s, [])) (s # ss), start) =
      split_loop pool n (enumerate (Suc k) (zip ss rs'))
        (zip (pre @ [s]) (vs0 @ [v]) @ map (\<lambda>s. (s, [])) ss, start + len)"
    using fold unfolding sl_def len_def
    by (cases "int k = int n - 1") (simp_all add: rs Let_def Cons.prems(2))
  have "fst (split_loop pool n (enumerate (Suc k) (zip ss rs'))
        (zip (pre @ [s]) (vs0 @ [v]) @ map (\<lambda>s. (s, [])) ss, start + len)) =
      zip (pre @ [s]) (vs0 @ [v]) @
      zip ss (map (map (nth pool)) (split_slices (length pool) n (Suc k) (start + len) rs'))"
    using Cons.prems rs by (intro Cons.IH) auto
  then show ?case
    unfolding step by (simp add: rs Cons.prems(2) len_def sl_def v_def)
qed

lemma split_dataset_closed:
  assumes "distinct splits" "length splits \<le> length split_ratios"
  shows "split_dataset pool splits split_ratios =
    zip splits (map (map (nth pool))
      (split_slices (length pool) (length splits) 0 0 (take (length splits) split_ratios)))"
proof -
  have z: "zip splits split_ratios = zip splits (take (length splits) split_ratios)"
  proof -
    have "zip splits split_ratios = take (length splits) (zip splits split_ratios)" by simp
    also have "\<dots> = zip splits (take (length splits) split_ratios)" by (simp add: take_zip)
    finally show ?thesis .
  qed
  show ?thesis
    using split_loop_closed[of "[]" splits "[]" "take (length splits) split_ratios" pool
        "length splits" 0 0] assms
    by (simp add: split_dataset_def dict_init_distinct z)
qed

lemma upt_append_upt: "a \<le> b \<Longrightarrow> b \<le> c \<Longrightarrow> [a..<b] @ [b..<c] = [a..<c]"
  by (metis le_Suc_ex upt_add_eq_append)

lemma py_slice_upt:
  "0 \<le> a \<Longrightarrow> a \<le> b \<Longrightarrow> py_slice [0..<N] a b = [min (nat a) N..<min (nat b) N]"
  by (auto simp: py_slice_def slice_index_def Let_def min_def)

lemma py_slice_from_upt: "0 \<le> a \<Longrightarrow> py_slice_from [0..<N] a = [min (nat a) N..<N]"
  by (auto simp: py_slice_from_def slice_index_def min_def)

lemma py_int_nonneg: "0 \<le> r \<Longrightarrow> py_int (of_nat N * r) = \<lfloor>of_nat N * r\<rfloor>"
  by (simp add: py_int_def)

lemma py_int_ge0: "0 \<le> r \<Longrightarrow> 0 \<le> py_int (of_nat N * r)"
  by (simp add: py_int_def)

lemma concat_split_slices:
  "rs \<noteq> [] \<Longrightarrow> k + length rs = n \<Longrightarrow> \<forall>r\<in>set rs. 0 \<le> r \<Longrightarrow> 0 \<le> start \<Longrightarrow>
   concat (split_slices N n k start rs) = [min (nat start) N..<N]"
proof (induction rs arbitrary: k start)
  case Nil
  then show ?case by simp
next
  case (Cons r rs)
  have r0: "0 \<le> py_int (of_nat N * r)" using Cons.prems(3) by (simp add: py_int_ge0)
  show ?case
  proof (cases "rs = []")
    case True
    then have "int k = int n - 1" using Cons.prems(2) by auto
    then show ?thesis using True Cons.prems(4) by (simp add: py_slice_from_upt)
  next
    case False
    then have ne: "int k \<noteq> int n - 1" using Cons.prems(2) by (cases rs) auto
    have ih: "concat (split_slices N n (Suc k) (start + py_int (of_nat N * r)) rs) =
        [min (nat (start + py_int (of_nat N * r))) N..<N]"
      using Cons.prems r0 False by (intro Cons.IH) auto
    have "min (nat start) N \<le> min (nat (start + py_int (of_nat N * r))) N"
      using r0 by (intro min.mono) (simp_all add: nat_mono)
    then show ?thesis
      using ne ih r0 Cons.prems(4) by (simp add: py_slice_upt upt_append_upt)
  qed
qed

lemma concat_zip_snd: "length ks = length vs \<Longrightarrow> concat (map snd (zip ks vs)) = concat vs"
  by (simp add: map_snd_zip)

lemma length_split_slices [simp]: "length (split_slices N n k start rs) = length rs"
  by (induction rs arbitrary: k start) auto

section \<open>Properties of the partitioner\<close>

text \<open>
  Claim C1 (partition coverage and disjointness).  For every pool and every tuple of
  non-negative ratios aligned with the (distinct, non-empty) split names, the dict returned
  by \<open>split_dataset\<close> has the split names as keys in their declared order, its
  values concatenated in that order are exactly the pool, and they are the images of index
  lists whose concatenation is \<open>[0..<N]\<close>: every index of the pool lies in exactly one
  split, none twice and none omitted.
\<close>

theorem split_dataset_partition:
  assumes "distinct splits" and "splits \<noteq> []" and "length splits \<le> length split_ratios"
    and "\<forall>r\<in>set split_ratios. 0 \<le> r"
  shows "map fst (split_dataset pool splits split_ratios) = splits \<and>
         concat (map snd (split_dataset pool splits split_ratios)) = pool \<and>
         (\<exists>iss. length iss = length splits \<and> concat iss = [0..<length pool] \<and>
            map snd (split_dataset pool splits split_ratios) = map (map (nth pool)) iss)"
proof -
  let ?rs = "take (length splits) split_ratios"
  let ?iss = "split_slices (length pool) (length splits) 0 0 ?rs"
  have len: "length ?rs = length splits" using assms(3) by simp
  have ds: "split_dataset pool splits split_ratios = zip splits (map (map (nth pool)) ?iss)"
    using assms by (rule_tac split_dataset_closed) 
  have nn: "\<forall>r\<in>set ?rs. 0 \<le> r" using assms(4) by (meson in_set_takeD)
  have "?rs \<noteq> []" using assms(2) len by auto
  then have cc: "concat ?iss = [0..<length pool]"
    using concat_split_slices[of ?rs 0 "length splits" 0 "length pool"] len nn by simp
  have "concat (map snd (split_dataset pool splits split_ratios)) = map (nth pool) (concat ?iss)"
    using assms(3) by (simp add: ds map_concat map_snd_zip)
  then have "concat (map snd (split_dataset pool splits split_ratios)) = pool"
    by (simp add: cc map_nth)
  moreover have "map fst (split_dataset pool splits split_ratios) = splits"
    using assms(3) by (simp add: ds)
  moreover have "map snd (split_dataset pool splits split_ratios) = map (map (nth pool)) ?iss"
    using assms(3) by (simp add: ds map_snd_zip)
  ultimately show ?thesis using cc len by (intro conjI exI[of _ ?iss]) simp_all
qed

theorem split_dataset_partition_witness:
  "distinct SPLITS \<and> SPLITS \<noteq> [] \<and> length SPLITS \<le> length [1/2, 1/4, 1/4 :: ratio] \<and>
   map fst (split_dataset [''p0'', ''p1'', ''p2'', ''p3''] SPLITS [1/2, 1/4, 1/4]) = SPLITS \<and>
   concat (map snd (split_dataset [''p0'', ''p1'', ''p2'', ''p3''] SPLITS [1/2, 1/4, 1/4])) =
     [''p0'', ''p1'', ''p2'', ''p3'']"
proof -
  have h1: "distinct SPLITS" by (simp add: SPLITS_def)
  have h2: "SPLITS \<noteq> []" by (simp add: SPLITS_def)
  have h3: "length SPLITS \<le> length [1/2, 1/4, 1/4 :: ratio]" by (simp add: SPLITS_def)
  have h4: "\<forall>r\<in>set [1/2, 1/4, 1/4 :: ratio]. 0 \<le> r" by simp
  show ?thesis
    using h1 h2 h3 h4
      split_dataset_partition [OF h1 h2 h3 h4, of "[''p0'', ''p1'', ''p2'', ''p3'']"]
    by blast
qed

subsection \<open>Sizes of the splits\<close>












text \<open>
  Claim C8 (ratio monotonicity).  With the three splits of the program and non-negative
  train and validation ratios, raising the validation ratio while the train and test ratios
  stay the same never makes the validation split smaller.
\<close>

theorem split_dataset_val_monotone:
  assumes "0 \<le> tr" and "0 \<le> v1" and "v1 \<le> v2"
  shows "length (the (map_of (split_dataset pool SPLITS [tr, v1, te]) ''val'')) \<le>
         length (the (map_of (split_dataset pool SPLITS [tr, v2, te]) ''val''))"
proof -
  let ?N = "length pool"
  have d: "distinct SPLITS" by (simp add: SPLITS_def)
  have val: "the (map_of (split_dataset pool SPLITS [tr, v, te]) ''val'') =
      map (nth pool) (py_slice [0..<?N] (py_int (of_nat ?N * tr))
        (py_int (of_nat ?N * tr) + py_int (of_nat ?N * v)))" for v
    using split_dataset_closed[OF d, of "[tr, v, te]" pool] by (simp add: SPLITS_def)
  have t0: "0 \<le> py_int (of_nat ?N * tr)" using assms(1) by (rule py_int_ge0)
  have l1: "0 \<le> py_int (of_nat ?N * v1)" using assms(2) by (rule py_int_ge0)
  have "of_nat ?N * v1 \<le> of_nat ?N * v2" using assms(3) by (intro mult_left_mono) simp_all
  then have m: "py_int (of_nat ?N * v1) \<le> py_int (of_nat ?N * v2)"
    using assms(2,3) by (simp add: py_int_def floor_mono)
  have len: "length (py_slice [0..<?N] l0 (l0 + l)) = min (nat l0 + nat l) ?N - min (nat l0) ?N"
    if "0 \<le> l0" "0 \<le> l" for l0 l
    using that by (simp add: py_slice_upt nat_add_distrib)
  have l2: "0 \<le> py_int (of_nat ?N * v2)" using l1 m by simp
  have "min (nat (py_int (of_nat ?N * tr)) + nat (py_int (of_nat ?N * v1))) ?N
      \<le> min (nat (py_int (of_nat ?N * tr)) + nat (py_int (of_nat ?N * v2))) ?N"
    using m by (intro min.mono) simp_all
  then show ?thesis
    by (simp add: val len[OF t0 l1] len[OF t0 l2] diff_le_mono)
qed

theorem split_dataset_val_monotone_witness:
  "(0::ratio) \<le> 1/2 \<and> (0::ratio) \<le> 1/8 \<and> (1/8::ratio) \<le> 1/4 \<and>
   length (the (map_of (split_dataset [''a'', ''b'', ''c'', ''d'', ''e'', ''f'', ''g'', ''h'']
                          SPLITS [1/2, 1/8, 1/4]) ''val'')) \<le>
   length (the (map_of (split_dataset [''a'', ''b'', ''c'', ''d'', ''e'', ''f'', ''g'', ''h'']
                          SPLITS [1/2, 1/4, 1/4]) ''val''))"
proof -
  have h1: "(0::ratio) \<le> 1/2" by simp
  have h2: "(0::ratio) \<le> 1/8" by simp
  have h3: "(1/8::ratio) \<le> 1/4" by simp
  show ?thesis
    using h1 h2 h3
      split_dataset_val_monotone [OF h1 h2 h3,
        of "[''a'', ''b'', ''c'', ''d'', ''e'', ''f'', ''g'', ''h'']" "1/4"]
    by blast
qed

section \<open>Properties of pair discovery\<close>

text \<open>
  Claim C5 (collection identifier).  The claim has every pair tagged with the base name of
  its root, also for a root written with a trailing separator.  The code takes the part after
  the last separator: for \<open>data/a\<close> that is \<open>a\<close>, for \<open>data/a/\<close> it is the empty
  string.
\<close>

theorem collection_id_trailing_separator:
  "map fst (search_image_triplets (\<lambda>d. [''x.png'']) ''data/a/'') = [''''] \<and>
   map fst (search_image_triplets (\<lambda>d. [''x.png'']) ''data/a'') = [''a'']"
  by code_simp

lemma join_single: "os_path_join a [b] = os_path_join2 a b"
  by (simp add: os_path_join_def)

lemma last_join2: "b \<noteq> [] \<Longrightarrow> os_path_join2 a b \<noteq> [] \<and> last (os_path_join2 a b) = last b"
  by (simp add: os_path_join2_def)










section \<open>Properties of the annotation generator\<close>

text \<open>
  Claim C6 (no-defect case).  When both images of a pair decode and the detector returns no
  contour, the turn of the loop for that pair succeeds, records the pair of paths, writes a
  polygon document whose object list is empty (with the height and width of the clean
  image), and writes as label mask the all-zero image of the noisy image's dimensions.
\<close>

theorem gen_defect_no_defect:
  assumes "imread files (os_path_join clean_dir [img_name]) = Some img_clean"
    and "imread files (os_path_join noisy_dir [img_name]) = Some img_noisy"
    and "find_defects img_clean img_noisy = []"
  shows "\<exists>files'.
      gen_defect find_defects rasterise output_root output_imgs_dir output_labels_dir
        (collection_id, clean_dir, noisy_dir, img_name) (path_pairs, files) =
      Inr (path_pairs @ [(raw_img_path output_imgs_dir collection_id img_name,
                          label_img_path output_labels_dir collection_id img_name)], files') \<and>
      files' (os_path_join output_root [label_dict_path output_labels_dir collection_id img_name])
        = Some (JsonFile (LabelDict (height img_clean) (width img_clean) [])) \<and>
      files' (os_path_join output_root [label_img_path output_labels_dir collection_id img_name])
        = Some (ImageFile (zeros_like img_noisy))"
proof -
  let ?d = "os_path_join output_root [label_dict_path output_labels_dir collection_id img_name]"
  let ?m = "os_path_join output_root [label_img_path output_labels_dir collection_id img_name]"
  have ld: "last ?d = CHR ''n''"
    by (simp add: join_single last_join2 label_dict_path_def)
  have lm: "last ?m = CHR ''g''"
    by (simp add: join_single last_join2 label_img_path_def)
  have ne: "?d \<noteq> ?m"
  proof
    assume "?d = ?m"
    then have "last ?d = last ?m" by simp
    then show False by (simp only: ld lm) simp
  qed
  show ?thesis
    using assms ne
    by (simp add: gen_defect_def Let_def imwrite_def save_json_def copyfile_def drawContours_def)
qed

theorem gen_defect_no_defect_witness:
  "imread clash_files (os_path_join ''a/clean'' [''b_c.png'']) = Some (Image 1 1 3 [9, 9, 9]) \<and>
   imread clash_files (os_path_join ''a/noisy'' [''b_c.png'']) = Some (Image 1 1 3 [1, 1, 1]) \<and>
   (\<lambda>c n. []) (Image 1 1 3 [9, 9, 9]) (Image 1 1 3 [1, 1, 1]) = ([] :: contour list) \<and>
   (\<exists>files'.
      gen_defect (\<lambda>c n. []) (\<lambda>i cs col. i) ''out'' ''leftImg8bit/defect/train''
        ''gtFine/defect/train'' (''a'', ''a/clean'', ''a/noisy'', ''b_c.png'') ([], clash_files) =
      Inr ([] @ [(raw_img_path ''leftImg8bit/defect/train'' ''a'' ''b_c.png'',
                  label_img_path ''gtFine/defect/train'' ''a'' ''b_c.png'')], files') \<and>
      files' (os_path_join ''out'' [label_dict_path ''gtFine/defect/train'' ''a'' ''b_c.png''])
        = Some (JsonFile (LabelDict (height (Image 1 1 3 [9, 9, 9])) (width (Image 1 1 3 [9, 9, 9])) [])) \<and>
      files' (os_path_join ''out'' [label_img_path ''gtFine/defect/train'' ''a'' ''b_c.png''])
        = Some (ImageFile (zeros_like (Image 1 1 3 [1, 1, 1]))))"
proof -
  have h1: "imread clash_files (os_path_join ''a/clean'' [''b_c.png'']) = Some (Image 1 1 3 [9, 9, 9])"
    by code_simp
  have h2: "imread clash_files (os_path_join ''a/noisy'' [''b_c.png'']) = Some (Image 1 1 3 [1, 1, 1])"
    by code_simp
  have h3: "(\<lambda>c n. []) (Image 1 1 3 [9, 9, 9]) (Image 1 1 3 [1, 1, 1]) = ([] :: contour list)"
    by simp
  show ?thesis
    using h1 h2 h3
      gen_defect_no_defect [of clash_files "''a/clean''" "''b_c.png''" "Image 1 1 3 [9, 9, 9]"
        "''a/noisy''" "Image 1 1 3 [1, 1, 1]" "\<lambda>c n. []", OF h1 h2 h3,
        of "\<lambda>i cs col. i" "''out''" "''leftImg8bit/defect/train''" "''gtFine/defect/train''"
        "''a''" "[]"]
    by blast
qed

text \<open>
  Claim C10 (artifact names are not injective).  The pairs \<open>b_c.png\<close> of collection \<open>a\<close>
  and \<open>c.png\<close> of collection \<open>a_b\<close> differ in collection and in file name, yet their
  identifier is \<open>a_b_c\<close> for both, so in every split their raw image, polygon document and
  label mask get the same paths.  Generating the first leaves its artifacts at those paths;
  generating both leaves the artifacts of the second there, and the same pair of paths twice
  in the list for the manifest.
\<close>

theorem artifact_names_collide:
  "fst clash_first \<noteq> fst clash_second \<and>
   snd (snd (snd clash_first)) \<noteq> snd (snd (snd clash_second)) \<and>
   img_id ''a'' ''b_c.png'' = img_id ''a_b'' ''c.png'' \<and>
   raw_img_path imgs_dir ''a'' ''b_c.png'' = raw_img_path imgs_dir ''a_b'' ''c.png'' \<and>
   label_dict_path labels_dir ''a'' ''b_c.png'' = label_dict_path labels_dir ''a_b'' ''c.png'' \<and>
   label_img_path labels_dir ''a'' ''b_c.png'' = label_img_path labels_dir ''a_b'' ''c.png'' \<and>
   (case gen_defects (\<lambda>c n. []) (\<lambda>i cs col. i) [clash_first] ''out''
           ''leftImg8bit/defect/train'' ''gtFine/defect/train'' clash_files of
      Inl e \<Rightarrow> None
    | Inr (pp, f) \<Rightarrow>
        Some (pp, f ''out/leftImg8bit/defect/train/a_b_c_leftImg8bit.png'',
              f ''out/gtFine/defect/train/a_b_c_polygons.json'',
              f ''out/gtFine/defect/train/a_b_c_labelIds.png'')) =
     Some ([(''leftImg8bit/defect/train/a_b_c_leftImg8bit.png'',
             ''gtFine/defect/train/a_b_c_labelIds.png'')],
           Some (ImageFile (Image 1 1 3 [1, 1, 1])),
           Some (JsonFile (LabelDict 1 1 [])),
           Some (ImageFile (Image 1 1 3 [0, 0, 0]))) \<and>
   (case gen_defects (\<lambda>c n. []) (\<lambda>i cs col. i) [clash_first, clash_second] ''out''
           ''leftImg8bit/defect/train'' ''gtFine/defect/train'' clash_files of
      Inl e \<Rightarrow> None
    | Inr (pp, f) \<Rightarrow>
        Some (pp, f ''out/leftImg8bit/defect/train/a_b_c_leftImg8bit.png'',
              f ''out/gtFine/defect/train/a_b_c_polygons.json'',
              f ''out/gtFine/defect/train/a_b_c_labelIds.png'')) =
     Some ([(''leftImg8bit/defect/train/a_b_c_leftImg8bit.png'',
             ''gtFine/defect/train/a_b_c_labelIds.png''),
            (''leftImg8bit/defect/train/a_b_c_leftImg8bit.png'',
             ''gtFine/defect/train/a_b_c_labelIds.png'')],
           Some (ImageFile (Image 2 1 3 [2, 2, 2, 2, 2, 2])),
           Some (JsonFile (LabelDict 2 1 [])),
           Some (ImageFile (Image 2 1 3 [0, 0, 0, 0, 0, 0])))"
proof -
  have c1: "fst clash_first \<noteq> fst clash_second" by (simp add: clash_first_def clash_second_def)
  have c2: "snd (snd (snd clash_first)) \<noteq> snd (snd (snd clash_second))"
    by (simp add: clash_first_def clash_second_def)
  have c3: "img_id ''a'' ''b_c.png'' = img_id ''a_b'' ''c.png''" by code_simp
  have c4: "raw_img_path imgs_dir ''a'' ''b_c.png'' = raw_img_path imgs_dir ''a_b'' ''c.png''"
    by (simp only: raw_img_path_def c3)
  have c5: "label_dict_path labels_dir ''a'' ''b_c.png'' =
      label_dict_path labels_dir ''a_b'' ''c.png''"
    by (simp only: label_dict_path_def c3)
  have c6: "label_img_path labels_dir ''a'' ''b_c.png'' =
      label_img_path labels_dir ''a_b'' ''c.png''"
    by (simp only: label_img_path_def c3)
  have c7: "(case gen_defects (\<lambda>c n. []) (\<lambda>i cs col. i) [clash_first] ''out''
           ''leftImg8bit/defect/train'' ''gtFine/defect/train'' clash_files of
      Inl e \<Rightarrow> None
    | Inr (pp, f) \<Rightarrow>
        Some (pp, f ''out/leftImg8bit/defect/train/a_b_c_leftImg8bit.png'',
              f ''out/gtFine/defect/train/a_b_c_polygons.json'',
              f ''out/gtFine/defect/train/a_b_c_labelIds.png'')) =
     Some ([(''leftImg8bit/defect/train/a_b_c_leftImg8bit.png'',
             ''gtFine/defect/train/a_b_c_labelIds.png'')],
           Some (ImageFile (Image 1 1 3 [1, 1, 1])),
           Some (JsonFile (LabelDict 1 1 [])),
           Some (ImageFile (Image 1 1 3 [0, 0, 0])))"
    by code_simp
  have c8: "(case gen_defects (\<lambda>c n. []) (\<lambda>i cs col. i) [clash_first, clash_second] ''out''
           ''leftImg8bit/defect/train'' ''gtFine/defect/train'' clash_files of
      Inl e \<Rightarrow> None
    | Inr (pp, f) \<Rightarrow>
        Some (pp, f ''out/leftImg8bit/defect/train/a_b_c_leftImg8bit.png'',
              f ''out/gtFine/defect/train/a_b_c_polygons.json'',
              f ''out/gtFine/defect/train/a_b_c_labelIds.png'')) =
     Some ([(''leftImg8bit/defect/train/a_b_c_leftImg8bit.png'',
             ''gtFine/defect/train/a_b_c_labelIds.png''),
            (''leftImg8bit/defect/train/a_b_c_leftImg8bit.png'',
             ''gtFine/defect/train/a_b_c_labelIds.png'')],
           Some (ImageFile (Image 2 1 3 [2, 2, 2, 2, 2, 2])),
           Some (JsonFile (LabelDict 2 1 [])),
           Some (ImageFile (Image 2 1 3 [0, 0, 0, 0, 0, 0])))"
    by code_simp
  show ?thesis by (intro conjI c1 c2 c3 c4 c5 c6 c7 c8)
qed

section \<open>Properties of the manifest writer\<close>

lemma split_on_plain: "c \<notin> set x \<Longrightarrow> split_on c x = [x]"
  by (induction x) auto

lemma split_on_app: "c \<notin> set x \<Longrightarrow> split_on c (x @ c # rest) = x # split_on c rest"
  by (induction x) auto

lemma split_on_join:
  "ls \<noteq> [] \<Longrightarrow> \<forall>l\<in>set ls. c \<notin> set l \<Longrightarrow> split_on c (str_join [c] ls) = ls"
proof (induction "[c]" ls rule: str_join.induct)
  case 1
  then show ?case by simp
next
  case (2 x)
  then show ?case by (simp add: split_on_plain)
next
  case (3 x y ys)
  then show ?case by (simp add: split_on_app)
qed

lemma str_join_nonempty: "x \<noteq> [] \<Longrightarrow> str_join s (x # xs) \<noteq> []"
  by (cases xs) auto

lemma parse_lst_line_inverse:
  "CHR 0x09 \<notin> set (fst pp) \<Longrightarrow> parse_lst_line (lst_line pp) = pp"
proof -
  assume a: "CHR 0x09 \<notin> set (fst pp)"
  have t: "takeWhile (\<lambda>c. c \<noteq> CHR 0x09) (fst pp @ CHR 0x09 # snd pp) = fst pp"
    using a by (subst takeWhile_append2) auto
  have d: "dropWhile (\<lambda>c. c \<noteq> CHR 0x09) (fst pp @ CHR 0x09 # snd pp) = CHR 0x09 # snd pp"
    using a by (subst dropWhile_append2) auto
  show ?thesis by (simp add: parse_lst_line_def lst_line_def t d)
qed

lemma manifest_lines_join:
  assumes "\<forall>pp\<in>set path_pairs. CHR 0x0A \<notin> set (fst pp) \<and> CHR 0x0A \<notin> set (snd pp)"
  shows "manifest_lines (str_join [CHR 0x0A] (map lst_line path_pairs)) = map lst_line path_pairs"
proof (cases path_pairs)
  case Nil
  then show ?thesis by (simp add: manifest_lines_def)
next
  case (Cons pp pps)
  have ne: "str_join [CHR 0x0A] (map lst_line path_pairs) \<noteq> []"
    unfolding Cons by (simp add: str_join_nonempty lst_line_def)
  have nl: "\<forall>l\<in>set (map lst_line path_pairs). CHR 0x0A \<notin> set l"
    using assms by (auto simp: lst_line_def)
  have "map lst_line path_pairs \<noteq> []" using Cons by simp
  from split_on_join[OF this nl] ne show ?thesis by (simp add: manifest_lines_def)
qed

text \<open>
  Claim C7 (manifest format), as the code has it.  Called as the dataset generator calls it,
  with the directory \<open>output_root/list\<close>, the writer leaves at
  \<open>output_root/list/split.lst\<close> the texts \<open>raw_path TAB label_path\<close> of the pairs, in
  the order of the pairs, joined by newline characters; the paths are written as they are.
  When no path holds a newline the file has exactly one line per pair, and when in addition
  no raw path holds a tab, reading the lines back gives the pairs in their order.  For an
  empty split the file exists and is empty: it has no line.
\<close>

theorem gen_lst_manifest:
  "gen_lst path_pairs (os_path_join output_root [''list'']) split files
     (os_path_join output_root [''list'', split @ ''.lst'']) =
     Some (TextFile (str_join [CHR 0x0A] (map lst_line path_pairs))) \<and>
   lst_line (r, l) = r @ [CHR 0x09] @ l \<and>
   ((\<forall>pp\<in>set path_pairs. CHR 0x0A \<notin> set (fst pp) \<and> CHR 0x0A \<notin> set (snd pp)) \<longrightarrow>
      manifest_lines (str_join [CHR 0x0A] (map lst_line path_pairs)) = map lst_line path_pairs \<and>
      length (manifest_lines (str_join [CHR 0x0A] (map lst_line path_pairs))) =
        length path_pairs) \<and>
   ((\<forall>pp\<in>set path_pairs. CHR 0x0A \<notin> set (fst pp) \<and> CHR 0x0A \<notin> set (snd pp) \<and>
        CHR 0x09 \<notin> set (fst pp)) \<longrightarrow>
      map parse_lst_line (manifest_lines (str_join [CHR 0x0A] (map lst_line path_pairs))) =
        path_pairs) \<and>
   gen_lst [] (os_path_join output_root [''list'']) split files
     (os_path_join output_root [''list'', split @ ''.lst'']) = Some (TextFile []) \<and>
   manifest_lines [] = []"
proof -
  let ?body = "str_join [CHR 0x0A] (map lst_line path_pairs)"
  have w: "gen_lst pps (os_path_join output_root [''list'']) split files
        (os_path_join output_root [''list'', split @ ''.lst'']) =
        Some (TextFile (str_join [CHR 0x0A] (map lst_line pps)))" for pps
    by (simp add: gen_lst_def Let_def save_text_def os_path_join_def)
  have c3: "lst_line (r, l) = r @ [CHR 0x09] @ l" by (simp add: lst_line_def)
  have a: "manifest_lines ?body = map lst_line path_pairs \<and>
      length (manifest_lines ?body) = length path_pairs"
    if h: "\<forall>pp\<in>set path_pairs. CHR 0x0A \<notin> set (fst pp) \<and> CHR 0x0A \<notin> set (snd pp)"
  proof -
    have ml: "manifest_lines ?body = map lst_line path_pairs"
      using h by (rule manifest_lines_join)
    then show ?thesis by (simp only: length_map simp_thms)
  qed
  have b: "map parse_lst_line (manifest_lines ?body) = path_pairs"
    if h: "\<forall>pp\<in>set path_pairs. CHR 0x0A \<notin> set (fst pp) \<and> CHR 0x0A \<notin> set (snd pp) \<and>
        CHR 0x09 \<notin> set (fst pp)"
  proof -
    have ml: "manifest_lines ?body = map lst_line path_pairs"
      using h by (intro manifest_lines_join) auto
    have "map (\<lambda>pp. parse_lst_line (lst_line pp)) path_pairs = path_pairs"
      by (rule map_idI) (use h parse_lst_line_inverse in auto)
    then have pl: "map parse_lst_line (map lst_line path_pairs) = path_pairs"
      by (simp add: comp_def)
    show ?thesis by (simp only: ml pl)
  qed
  have c4: "gen_lst [] (os_path_join output_root [''list'']) split files
        (os_path_join output_root [''list'', split @ ''.lst'']) = Some (TextFile [])"
    using w[of "[]"] by simp
  have c5: "manifest_lines [] = []" by (simp add: manifest_lines_def)
  from a have a': "(\<forall>pp\<in>set path_pairs. CHR 0x0A \<notin> set (fst pp) \<and> CHR 0x0A \<notin> set (snd pp)) \<longrightarrow>
      manifest_lines ?body = map lst_line path_pairs \<and>
      length (manifest_lines ?body) = length path_pairs" by blast
  from b have b': "(\<forall>pp\<in>set path_pairs. CHR 0x0A \<notin> set (fst pp) \<and> CHR 0x0A \<notin> set (snd pp) \<and>
        CHR 0x09 \<notin> set (fst pp)) \<longrightarrow>
      map parse_lst_line (manifest_lines ?body) = path_pairs" by blast
  show ?thesis by (intro conjI w c3 a' b' c4 c5)
qed

theorem gen_lst_manifest_witness:
  "os_path_join ''out'' [''list'', ''val'' @ ''.lst''] = ''out/list/val.lst'' \<and>
   gen_lst [(''i/a.png'', ''l/a.png''), (''i/b.png'', ''l/b.png'')]
     (os_path_join ''out'' [''list'']) ''val'' Map.empty
     (os_path_join ''out'' [''list'', ''val'' @ ''.lst'']) =
     Some (TextFile (str_join [CHR 0x0A]
       (map lst_line [(''i/a.png'', ''l/a.png''), (''i/b.png'', ''l/b.png'')]))) \<and>
   str_join [CHR 0x0A] (map lst_line [(''i/a.png'', ''l/a.png''), (''i/b.png'', ''l/b.png'')]) =
     ''i/a.png'' @ [CHR 0x09] @ ''l/a.png'' @ [CHR 0x0A] @ ''i/b.png'' @ [CHR 0x09] @ ''l/b.png'' \<and>
   length (manifest_lines (str_join [CHR 0x0A]
       (map lst_line [(''i/a.png'', ''l/a.png''), (''i/b.png'', ''l/b.png'')]))) =
     length [(''i/a.png'', ''l/a.png''), (''i/b.png'', ''l/b.png'')] \<and>
   map parse_lst_line (manifest_lines (str_join [CHR 0x0A]
       (map lst_line [(''i/a.png'', ''l/a.png''), (''i/b.png'', ''l/b.png'')]))) =
     [(''i/a.png'', ''l/a.png''), (''i/b.png'', ''l/b.png'')]"
proof -
  have h1: "\<forall>pp\<in>set [(''i/a.png'', ''l/a.png''), (''i/b.png'', ''l/b.png'')].
      CHR 0x0A \<notin> set (fst pp) \<and> CHR 0x0A \<notin> set (snd pp)"
    by simp
  have h2: "\<forall>pp\<in>set [(''i/a.png'', ''l/a.png''), (''i/b.png'', ''l/b.png'')].
      CHR 0x0A \<notin> set (fst pp) \<and> CHR 0x0A \<notin> set (snd pp) \<and> CHR 0x09 \<notin> set (fst pp)"
    by simp
  have p: "os_path_join ''out'' [''list'', ''val'' @ ''.lst''] = ''out/list/val.lst''"
    by code_simp
  have j: "str_join [CHR 0x0A]
      (map lst_line [(''i/a.png'', ''l/a.png''), (''i/b.png'', ''l/b.png'')]) =
     ''i/a.png'' @ [CHR 0x09] @ ''l/a.png'' @ [CHR 0x0A] @ ''i/b.png'' @ [CHR 0x09] @ ''l/b.png''"
    by code_simp
  note t = gen_lst_manifest [of "[(''i/a.png'', ''l/a.png''), (''i/b.png'', ''l/b.png'')]"
      "''out''" "''val''" Map.empty]
  note t3 = t[THEN conjunct2, THEN conjunct2, THEN conjunct1, THEN mp, OF h1]
  note t4 = t[THEN conjunct2, THEN conjunct2, THEN conjunct2, THEN conjunct1, THEN mp, OF h2]
  show ?thesis
    by (intro conjI) (rule p, rule t[THEN conjunct1], rule j, rule t3[THEN conjunct2], rule t4)
qed

text \<open>
  Claim C7 as stated has one line per pair for every sequence of pairs.  The name
  \<open>a\<newline>b.png\<close> is matched by the pattern \<open>*.png\<close>; the annotation generator derives
  from it a pair of paths that hold the newline, and the manifest written for this one pair
  has three lines.
\<close>

theorem newline_name_two_lines:
  "fnmatch_png newline_name \<and> \<not> ishidden newline_name \<and>
   (case gen_defects (\<lambda>c n. []) (\<lambda>i cs col. i) [(''r'', ''r/clean'', ''r/noisy'', newline_name)]
           ''out'' ''leftImg8bit/defect/val'' ''gtFine/defect/val'' newline_files of
      Inl e \<Rightarrow> None
    | Inr (pp, f) \<Rightarrow>
        (case gen_lst pp ''out/list'' ''val'' f ''out/list/val.lst'' of
           Some (TextFile t) \<Rightarrow> Some (pp, manifest_lines t)
         | _ \<Rightarrow> None)) =
     Some ([(''leftImg8bit/defect/val/r_a'' @ [CHR 0x0A] @ ''b_leftImg8bit.png'',
             ''gtFine/defect/val/r_a'' @ [CHR 0x0A] @ ''b_labelIds.png'')],
           [''leftImg8bit/defect/val/r_a'',
            ''b_leftImg8bit.png'' @ [CHR 0x09] @ ''gtFine/defect/val/r_a'',
            ''b_labelIds.png''])"
  by code_simp

section \<open>Properties of the whole run\<close>




subsection \<open>The splits hold discovered pairs only\<close>








subsection \<open>The last character of the paths\<close>









subsection \<open>The writes keep the inputs decodable\<close>











end
